theory Spec2Isabelle
  imports Main "HOL-Library.Word"
begin

section \<open>The resource store of fitz/res\_store.c\<close>

text \<open>
  A shallow embedding of \<^verbatim>\<open>src/fitz/res_store.c\<close>. The C heap is explicit: items,
  storables and key objects live in three maps from addresses to records, a pointer is an
  address and a nullable pointer is an \<open>option\<close>. \<^verbatim>\<open>unsigned int\<close> is \<open>32 word\<close>
  (arithmetic wraps). A reference count is a C \<^verbatim>\<open>int\<close>: a \<open>32 word\<close> whose sign is
  read with \<open>sint\<close>. The increment of \<^verbatim>\<open>INT_MAX\<close>, undefined in C, wraps to
  \<^verbatim>\<open>INT_MIN\<close> as it does in the compiled code.
  A dereference of a null pointer or of an address that holds no object ends the run
  with a fault that carries the state reached.
\<close>

subsection \<open>Data\<close>

type_synonym iptr = nat \<comment> \<open>address of an \<^verbatim>\<open>fz_item\<close>\<close>
type_synonym sptr = nat \<comment> \<open>address of an \<^verbatim>\<open>fz_storable\<close>\<close>
type_synonym kptr = nat \<comment> \<open>address of an \<^verbatim>\<open>fz_obj\<close> used as key\<close>
type_synonym free_fn = nat \<comment> \<open>identity of an \<^verbatim>\<open>fz_store_free_fn\<close>\<close>

text \<open>\<^verbatim>\<open>struct refkey { free; num; gen; }\<close>\<close>
type_synonym refkey = "free_fn \<times> int \<times> int"

text \<open>
  Modelled from the spec: \<^verbatim>\<open>fz_obj\<close> is declared outside this file. The store only asks
  whether a key is an indirect reference, for its number and generation, for structural
  equality, and acquires and releases ownership; so a key object is a reference count and
  either an indirect reference \<open>(num, gen)\<close> or some other value.
\<close>
datatype objkind = Indirect int int | Direct nat

record fz_obj =
  o_refs :: "32 word"
  o_kind :: objkind

text \<open>
  \<^verbatim>\<open>fz_storable\<close> (declared in fitz.h): the fields this file uses, \<^verbatim>\<open>refs\<close> and \<^verbatim>\<open>free\<close>.
\<close>
record fz_storable =
  s_refs :: "32 word"
  s_free :: free_fn

text \<open>
  \<^verbatim>\<open>struct fz_item_s\<close>. Its \<^verbatim>\<open>store\<close> field is never read or written in this file
  and is left out.
\<close>
record fz_item =
  item_key :: kptr
  item_val :: sptr
  item_size :: "32 word"
  item_next :: "iptr option"
  item_prev :: "iptr option"

text \<open>\<^verbatim>\<open>struct fz_store_s\<close>\<close>
record fz_store =
  store_refs :: "32 word"
  store_head :: "iptr option"
  store_tail :: "iptr option"
  store_hash :: "refkey \<rightharpoonup> iptr"
  store_max :: "32 word"
  store_size :: "32 word"

text \<open>
  The context: \<^verbatim>\<open>ctx->store\<close> (nullable), the three heaps, whether \<^verbatim>\<open>FZ_LOCK_ALLOC\<close>
  is held, and the log of the calls \<^verbatim>\<open>s->free(ctx, s)\<close> made so far, each with the state
  of the lock at the call. The callback is caller-supplied code; the model records the
  call and leaves the storable in the heap.
\<close>
record fz_context =
  store :: "fz_store option"
  items :: "iptr \<rightharpoonup> fz_item"
  vals :: "sptr \<rightharpoonup> fz_storable"
  objs :: "kptr \<rightharpoonup> fz_obj"
  locked :: bool
  finalized :: "(sptr \<times> bool) list"

datatype fault = NullDeref | Dangling

type_synonym 'a res = "(fault \<times> fz_context) + 'a"

definition rbind :: "'a res \<Rightarrow> ('a \<Rightarrow> 'b res) \<Rightarrow> 'b res" where
  "rbind m f = (case m of Inl e \<Rightarrow> Inl e | Inr x \<Rightarrow> f x)"

text \<open>
  Modelled from the spec: \<^verbatim>\<open>FZ_STORE_UNLIMITED\<close>, the "unlimited" sentinel of the
  capacity, is an enumerator of fitz.h; its value there is 0.
\<close>
definition FZ_STORE_UNLIMITED :: "32 word" where
  "FZ_STORE_UNLIMITED = 0"

definition UINT_MAX :: "32 word" where
  "UINT_MAX = - 1"

subsection \<open>Collaborators\<close>

definition fz_lock :: "fz_context \<Rightarrow> fz_context" where
  "fz_lock c = c\<lparr>locked := True\<rparr>"

definition fz_unlock :: "fz_context \<Rightarrow> fz_context" where
  "fz_unlock c = c\<lparr>locked := False\<rparr>"

text \<open>The call \<^verbatim>\<open>s->free(ctx, s)\<close>.\<close>
definition call_free :: "fz_context \<Rightarrow> sptr \<Rightarrow> fz_context" where
  "call_free c s = c\<lparr>finalized := finalized c @ [(s, locked c)]\<rparr>"

text \<open>\<^verbatim>\<open>fz_free(ctx, item)\<close>\<close>
definition fz_free :: "fz_context \<Rightarrow> iptr \<Rightarrow> fz_context" where
  "fz_free c i = c\<lparr>items := (items c)(i := None)\<rparr>"

text \<open>
  Modelled from the spec: \<^verbatim>\<open>fz_keep_obj\<close> and \<^verbatim>\<open>fz_drop_obj\<close> belong to the object
  module. They acquire and release one reference to a key object; the release of the
  object's memory at count zero is not modelled.
\<close>
definition fz_keep_obj :: "fz_context \<Rightarrow> kptr \<Rightarrow> fz_context res" where
  "fz_keep_obj c k =
     (case objs c k of
        None \<Rightarrow> Inl (Dangling, c)
      | Some ob \<Rightarrow> Inr (c\<lparr>objs := (objs c)(k \<mapsto> ob\<lparr>o_refs := o_refs ob + 1\<rparr>)\<rparr>))"

definition fz_drop_obj :: "fz_context \<Rightarrow> kptr \<Rightarrow> fz_context res" where
  "fz_drop_obj c k =
     (case objs c k of
        None \<Rightarrow> Inl (Dangling, c)
      | Some ob \<Rightarrow> Inr (c\<lparr>objs := (objs c)(k \<mapsto> ob\<lparr>o_refs := o_refs ob - 1\<rparr>)\<rparr>))"

text \<open>
  Modelled from the spec: \<^verbatim>\<open>fz_is_indirect\<close>, \<^verbatim>\<open>fz_to_num\<close>, \<^verbatim>\<open>fz_to_gen\<close> and
  \<^verbatim>\<open>fz_objcmp\<close> (0 when the two objects are structurally equal) of the object module.
\<close>
definition fz_is_indirect :: "fz_obj \<Rightarrow> bool" where
  "fz_is_indirect ob = (case o_kind ob of Indirect n g \<Rightarrow> True | Direct d \<Rightarrow> False)"

definition fz_to_num :: "fz_obj \<Rightarrow> int" where
  "fz_to_num ob = (case o_kind ob of Indirect n g \<Rightarrow> n | Direct d \<Rightarrow> 0)"

definition fz_to_gen :: "fz_obj \<Rightarrow> int" where
  "fz_to_gen ob = (case o_kind ob of Indirect n g \<Rightarrow> g | Direct d \<Rightarrow> 0)"

definition fz_objcmp :: "fz_obj \<Rightarrow> fz_obj \<Rightarrow> int" where
  "fz_objcmp a b = (if o_kind a = o_kind b then 0 else 1)"

text \<open>
  Modelled from the spec: the hash index of \<^verbatim>\<open>base_hash.c\<close>, keyed on
  \<open>(free, num, gen)\<close>: insert, find, remove.
\<close>
definition fz_hash_insert :: "(refkey \<rightharpoonup> iptr) \<Rightarrow> refkey \<Rightarrow> iptr \<Rightarrow> (refkey \<rightharpoonup> iptr)" where
  "fz_hash_insert h k i = h(k \<mapsto> i)"

definition fz_hash_find :: "(refkey \<rightharpoonup> iptr) \<Rightarrow> refkey \<Rightarrow> iptr option" where
  "fz_hash_find h k = h k"

definition fz_hash_remove :: "(refkey \<rightharpoonup> iptr) \<Rightarrow> refkey \<Rightarrow> (refkey \<rightharpoonup> iptr)" where
  "fz_hash_remove h k = h(k := None)"

subsection \<open>Access to the heaps\<close>

definition the_store :: "fz_context \<Rightarrow> fz_store res" where
  "the_store c = (case store c of None \<Rightarrow> Inl (NullDeref, c) | Some st \<Rightarrow> Inr st)"

definition get_item :: "fz_context \<Rightarrow> iptr \<Rightarrow> fz_item res" where
  "get_item c i = (case items c i of None \<Rightarrow> Inl (Dangling, c) | Some it \<Rightarrow> Inr it)"

definition get_val :: "fz_context \<Rightarrow> sptr \<Rightarrow> fz_storable res" where
  "get_val c s = (case vals c s of None \<Rightarrow> Inl (Dangling, c) | Some v \<Rightarrow> Inr v)"

definition get_obj :: "fz_context \<Rightarrow> kptr \<Rightarrow> fz_obj res" where
  "get_obj c k = (case objs c k of None \<Rightarrow> Inl (Dangling, c) | Some ob \<Rightarrow> Inr ob)"

definition upd_store :: "(fz_store \<Rightarrow> fz_store) \<Rightarrow> fz_context \<Rightarrow> fz_context" where
  "upd_store f c = c\<lparr>store := map_option f (store c)\<rparr>"

text \<open>\<^verbatim>\<open>i->prev = p\<close> and \<^verbatim>\<open>i->next = n\<close>\<close>
definition set_prev :: "fz_context \<Rightarrow> iptr \<Rightarrow> iptr option \<Rightarrow> fz_context res" where
  "set_prev c i p =
     rbind (get_item c i) (\<lambda>it. Inr (c\<lparr>items := (items c)(i \<mapsto> it\<lparr>item_prev := p\<rparr>)\<rparr>))"

definition set_next :: "fz_context \<Rightarrow> iptr \<Rightarrow> iptr option \<Rightarrow> fz_context res" where
  "set_next c i n =
     rbind (get_item c i) (\<lambda>it. Inr (c\<lparr>items := (items c)(i \<mapsto> it\<lparr>item_next := n\<rparr>)\<rparr>))"

text \<open>\<^verbatim>\<open>s->refs = s->refs + d\<close>\<close>
definition add_refs :: "fz_context \<Rightarrow> sptr \<Rightarrow> 32 word \<Rightarrow> fz_context res" where
  "add_refs c s d =
     rbind (get_val c s) (\<lambda>v. Inr (c\<lparr>vals := (vals c)(s \<mapsto> v\<lparr>s_refs := s_refs v + d\<rparr>)\<rparr>))"

subsection \<open>fz\_new\_store\_context\<close>

text \<open>
  Lines 39--59. The allocation of the store and of the hash table may throw; then no
  store is installed (\<open>alloc_ok\<close> says whether both succeed).
\<close>
definition fz_new_store_context :: "fz_context \<Rightarrow> 32 word \<Rightarrow> bool \<Rightarrow> fz_context" where
  "fz_new_store_context c mx alloc_ok =
     (if alloc_ok
      then c\<lparr>store := Some \<lparr>store_refs = 1, store_head = None, store_tail = None,
                store_hash = Map.empty, store_max = mx, store_size = 0\<rparr>\<rparr>
      else c)"

subsection \<open>fz\_keep\_storable and fz\_drop\_storable\<close>

text \<open>
  Lines 61--71. \<^verbatim>\<open>s->refs++\<close> is the increment of a 32-bit \<^verbatim>\<open>int\<close>: of
  \<^verbatim>\<open>INT_MAX\<close> it makes \<^verbatim>\<open>INT_MIN\<close>, a negative count.
\<close>
definition fz_keep_storable :: "fz_context \<Rightarrow> sptr option \<Rightarrow> (fz_context \<times> sptr option) res" where
  "fz_keep_storable c s =
     (case s of
        None \<Rightarrow> Inr (c, None)
      | Some p \<Rightarrow>
          (let c1 = fz_lock c in
           rbind (get_val c1 p) (\<lambda>v.
           rbind (if sint (s_refs v) > 0 then add_refs c1 p 1 else Inr c1) (\<lambda>c2.
           Inr (fz_unlock c2, Some p)))))"

text \<open>Lines 73--97.\<close>
definition fz_drop_storable :: "fz_context \<Rightarrow> sptr option \<Rightarrow> fz_context res" where
  "fz_drop_storable c s =
     (case s of
        None \<Rightarrow> Inr c
      | Some p \<Rightarrow>
          (let c1 = fz_lock c in
           rbind (get_val c1 p) (\<lambda>v.
           if sint (s_refs v) < 0 then Inr (fz_unlock c1)
           else
             rbind (add_refs c1 p (- 1)) (\<lambda>c2.
             let do_free = (s_refs v - 1 = 0);
                 c3 = fz_unlock c2
             in if do_free then Inr (call_free c3 p) else Inr c3))))"

subsection \<open>evict\<close>

text \<open>
  The unlinking of an item from the list, written out three times in the source
  (lines 107--114, 329--336 and 390--397).
\<close>
definition unlink :: "fz_context \<Rightarrow> iptr \<Rightarrow> fz_context res" where
  "unlink c i =
     rbind (get_item c i) (\<lambda>it.
     rbind (case item_next it of
              Some n \<Rightarrow> set_prev c n (item_prev it)
            | None \<Rightarrow> Inr (upd_store (\<lambda>st. st\<lparr>store_tail := item_prev it\<rparr>) c)) (\<lambda>c1.
     rbind (get_item c1 i) (\<lambda>it1.
     (case item_prev it1 of
        Some p \<Rightarrow> set_next c1 p (item_next it1)
      | None \<Rightarrow> Inr (upd_store (\<lambda>st. st\<lparr>store_head := item_next it1\<rparr>) c1)))))"

text \<open>
  \<^verbatim>\<open>drop = (v->refs > 0 && --v->refs == 0)\<close> (lines 116 and 398): the new state and
  \<open>drop\<close>.
\<close>
definition drop_ref :: "fz_context \<Rightarrow> sptr \<Rightarrow> (fz_context \<times> bool) res" where
  "drop_ref c s =
     rbind (get_val c s) (\<lambda>v.
     if sint (s_refs v) > 0
     then rbind (add_refs c s (- 1)) (\<lambda>c1. Inr (c1, s_refs v - 1 = 0))
     else Inr (c, False))"

text \<open>Lines 99--133. Called with the lock held; drops it and takes it again.\<close>
definition evict :: "fz_context \<Rightarrow> iptr \<Rightarrow> fz_context res" where
  "evict c i =
     rbind (the_store c) (\<lambda>st0.
     rbind (get_item c i) (\<lambda>it.
     let c1 = upd_store (\<lambda>st. st\<lparr>store_size := store_size st - item_size it\<rparr>) c in
     rbind (unlink c1 i) (\<lambda>c2.
     rbind (drop_ref c2 (item_val it)) (\<lambda>(c3, drop).
     let c4 = fz_unlock c3 in
     rbind (get_obj c4 (item_key it)) (\<lambda>ob.
     rbind (get_val c4 (item_val it)) (\<lambda>v.
     let c5 = (if fz_is_indirect ob
               then upd_store (\<lambda>st. st\<lparr>store_hash :=
                      fz_hash_remove (store_hash st) (s_free v, fz_to_num ob, fz_to_gen ob)\<rparr>) c4
               else c4);
         c6 = (if drop then call_free c5 (item_val it) else c5)
     in rbind (fz_drop_obj c6 (item_key it)) (\<lambda>c7.
        Inr (fz_lock (fz_free c7 i)))))))))"

subsection \<open>ensure\_space\<close>

text \<open>An item together with its storable: \<^verbatim>\<open>item->prev\<close>, \<^verbatim>\<open>item->val->refs\<close>.\<close>
definition get_item_val :: "fz_context \<Rightarrow> iptr \<Rightarrow> (fz_item \<times> fz_storable) res" where
  "get_item_val c i =
     rbind (get_item c i) (\<lambda>it. rbind (get_val c (item_val it)) (\<lambda>v. Inr (it, v)))"

text \<open>
  The first loop (lines 146--155), from \<open>item\<close> on: the value of \<^verbatim>\<open>item\<close> when the
  loop ends, null when the walk ran out of items.
\<close>
partial_function (option) ensure_space_check ::
  "fz_context \<Rightarrow> iptr option \<Rightarrow> 32 word \<Rightarrow> 32 word \<Rightarrow> (iptr option) res option" where
  "ensure_space_check c item count tofree =
     (case item of
        None \<Rightarrow> Some (Inr None)
      | Some i \<Rightarrow>
          (case get_item_val c i of
             Inl e \<Rightarrow> Some (Inl e)
           | Inr (it, v) \<Rightarrow>
               if s_refs v = 1
               then (if count + item_size it \<ge> tofree then Some (Inr (Some i))
                     else ensure_space_check c (item_prev it) (count + item_size it) tofree)
               else ensure_space_check c (item_prev it) count tofree))"

declare ensure_space_check.simps [code]

text \<open>
  Lines 179--186: pin \<open>prev\<close> if there is one, evict the item, unpin \<open>prev\<close>.
  The decrement of line 186 is not guarded.
\<close>
definition ensure_space_evict :: "fz_context \<Rightarrow> iptr \<Rightarrow> iptr option \<Rightarrow> fz_context res" where
  "ensure_space_evict c i prv =
     rbind (case prv of
              None \<Rightarrow> Inr c
            | Some p \<Rightarrow> rbind (get_item c p) (\<lambda>pit. add_refs c (item_val pit) 1)) (\<lambda>c1.
     rbind (evict c1 i) (\<lambda>c2.
     (case prv of
        None \<Rightarrow> Inl (NullDeref, c2)
      | Some p \<Rightarrow> rbind (get_item c2 p) (\<lambda>pit. add_refs c2 (item_val pit) (- 1)))))"

text \<open>The second loop (lines 164--193), from \<open>item\<close> on: the state and \<^verbatim>\<open>count\<close>.\<close>
partial_function (option) ensure_space_free ::
  "fz_context \<Rightarrow> iptr option \<Rightarrow> 32 word \<Rightarrow> 32 word \<Rightarrow> (fz_context \<times> 32 word) res option" where
  "ensure_space_free c item count tofree =
     (case item of
        None \<Rightarrow> Some (Inr (c, count))
      | Some i \<Rightarrow>
          (case get_item_val c i of
             Inl e \<Rightarrow> Some (Inl e)
           | Inr (it, v) \<Rightarrow>
               if s_refs v = 1
               then (case ensure_space_evict c i (item_prev it) of
                       Inl e \<Rightarrow> Some (Inl e)
                     | Inr c' \<Rightarrow>
                         if count + item_size it \<ge> tofree
                         then Some (Inr (c', count + item_size it))
                         else ensure_space_free c' (item_prev it) (count + item_size it) tofree)
               else ensure_space_free c (item_prev it) count tofree))"

declare ensure_space_free.simps [code]

text \<open>
  Lines 135--194. The result is \<^verbatim>\<open>count\<close>; the callers only compare it with 0.
  \<^verbatim>\<open>fz_assert_lock_held\<close> is a debugging aid without effect on the state.
\<close>
definition ensure_space :: "fz_context \<Rightarrow> 32 word \<Rightarrow> (fz_context \<times> 32 word) res option" where
  "ensure_space c tofree =
     (case the_store c of
        Inl e \<Rightarrow> Some (Inl e)
      | Inr st \<Rightarrow>
          (case ensure_space_check c (store_tail st) 0 tofree of
             None \<Rightarrow> None
           | Some (Inl e) \<Rightarrow> Some (Inl e)
           | Some (Inr None) \<Rightarrow> Some (Inr (c, 0))
           | Some (Inr (Some i)) \<Rightarrow> ensure_space_free c (store_tail st) 0 tofree))"

subsection \<open>fz\_store\_item\<close>

text \<open>
  The loop of lines 236--246. \<open>sz\<close> is the local \<^verbatim>\<open>size\<close>, computed once before the
  loop. The result says whether the loop was left normally (\<open>True\<close>) or by the
  \<^verbatim>\<open>return\<close> of line 244.
\<close>
partial_function (option) store_make_room ::
  "fz_context \<Rightarrow> 32 word \<Rightarrow> (fz_context \<times> bool) res option" where
  "store_make_room c sz =
     (case the_store c of
        Inl e \<Rightarrow> Some (Inl e)
      | Inr st \<Rightarrow>
          if sz > store_max st
          then (case ensure_space c (sz - store_max st) of
                  None \<Rightarrow> None
                | Some (Inl e) \<Rightarrow> Some (Inl e)
                | Some (Inr (c', n)) \<Rightarrow>
                    if n = 0 then Some (Inr (c', False)) else store_make_room c' sz)
          else Some (Inr (c, True)))"

declare store_make_room.simps [code]

text \<open>
  The insertion at the head of the list (lines 277--283 and 338--344).
\<close>
definition link_head :: "fz_context \<Rightarrow> iptr \<Rightarrow> fz_context res" where
  "link_head c i =
     rbind (the_store c) (\<lambda>st.
     rbind (set_next c i (store_head st)) (\<lambda>c1.
     rbind (get_item c1 i) (\<lambda>it.
     rbind (case item_next it of
              Some n \<Rightarrow> set_prev c1 n (Some i)
            | None \<Rightarrow> Inr (upd_store (\<lambda>st. st\<lparr>store_tail := Some i\<rparr>) c1)) (\<lambda>c2.
     set_prev (upd_store (\<lambda>st. st\<lparr>store_head := Some i\<rparr>) c2) i None))))"

text \<open>\<^verbatim>\<open>if (val->refs > 0) val->refs++\<close> (lines 274 and 346)\<close>
definition bump_ref :: "fz_context \<Rightarrow> sptr \<Rightarrow> fz_context res" where
  "bump_ref c s =
     rbind (get_val c s) (\<lambda>v. if sint (s_refs v) > 0 then add_refs c s 1 else Inr c)"

text \<open>
  Lines 248--284, with the lock held on entry. The memory of the new item was obtained
  at line 225; the item enters the heap of items when its fields are written (lines
  250--253; \<^verbatim>\<open>fz_malloc_struct\<close> has zeroed \<^verbatim>\<open>prev\<close>). \<open>rk\<close> is the \<^verbatim>\<open>refkey\<close>
  when the key is indirect; \<open>hash_ok\<close> says whether \<^verbatim>\<open>fz_hash_insert\<close> returns rather
  than throws.
\<close>
definition store_admit ::
  "fz_context \<Rightarrow> kptr \<Rightarrow> sptr \<Rightarrow> 32 word \<Rightarrow> iptr \<Rightarrow> refkey option \<Rightarrow> bool \<Rightarrow> fz_context res" where
  "store_admit c key val itemsize item rk hash_ok =
     (let c1 = upd_store (\<lambda>st. st\<lparr>store_size := store_size st + itemsize\<rparr>) c in
      rbind (fz_keep_obj c1 key) (\<lambda>c2.
      let c3 = c2\<lparr>items := (items c2)(item \<mapsto>
                 \<lparr>item_key = key, item_val = val, item_size = itemsize,
                  item_next = None, item_prev = None\<rparr>)\<rparr>
      in
      rbind (case rk of
               None \<Rightarrow> Inr (c3, True)
             | Some k \<Rightarrow>
                 (let c4 = fz_unlock c3 in
                  if hash_ok
                  then Inr (fz_lock (upd_store (\<lambda>st. st\<lparr>store_hash :=
                              fz_hash_insert (store_hash st) k item\<rparr>) c4), True)
                  else Inr (fz_unlock (upd_store (\<lambda>st. st\<lparr>store_size :=
                              store_size st - itemsize\<rparr>) (fz_lock (fz_free c4 item))), False)))
        (\<lambda>(c5, stored).
      if \<not> stored then Inr c5
      else
        rbind (bump_ref c5 val) (\<lambda>c6.
        rbind (link_head c6 item) (\<lambda>c7.
        Inr (fz_unlock c7))))))"

text \<open>
  Lines 196--285. \<open>malloc_res\<close> is what \<^verbatim>\<open>fz_malloc_struct\<close> returns (\<open>None\<close> when it
  throws).
\<close>
definition fz_store_item ::
  "fz_context \<Rightarrow> kptr \<Rightarrow> sptr \<Rightarrow> 32 word \<Rightarrow> iptr option \<Rightarrow> bool \<Rightarrow> fz_context res option" where
  "fz_store_item c key val itemsize malloc_res hash_ok =
     (case store c of
        None \<Rightarrow> Some (Inr c)
      | Some st \<Rightarrow>
          (case rbind (get_obj c key) (\<lambda>kob.
                  if fz_is_indirect kob
                  then rbind (get_val c val) (\<lambda>v.
                         Inr (Some (s_free v, fz_to_num kob, fz_to_gen kob)))
                  else Inr None) of
             Inl e \<Rightarrow> Some (Inl e)
           | Inr rk \<Rightarrow>
               (case malloc_res of
                  None \<Rightarrow> Some (Inr c)
                | Some item \<Rightarrow>
                    (let c1 = fz_lock c in
                     (case (if store_max st \<noteq> FZ_STORE_UNLIMITED
                            then store_make_room c1 (store_size st + itemsize)
                            else Some (Inr (c1, True))) of
                        None \<Rightarrow> None
                      | Some (Inl e) \<Rightarrow> Some (Inl e)
                      | Some (Inr (c2, ok)) \<Rightarrow>
                          Some (if \<not> ok then Inr (fz_free (fz_unlock c2) item)
                                else store_admit c2 key val itemsize item rk hash_ok))))))"

text \<open>
  Between line 258 and line 271 the lock is released, and another thread can run a
  store operation. The two parts of lines 248--284 with the release between them:
  \<open>store_admit_index\<close> is lines 248--270, up to the return of \<^verbatim>\<open>fz_hash_insert\<close> (or
  to the end of the handler when it throws; the second component is false then), and
  leaves the lock released when the key is indirect; \<open>store_admit_link\<close> is lines
  271--284, which take the lock again when the key is indirect.
\<close>
definition store_admit_index ::
  "fz_context \<Rightarrow> kptr \<Rightarrow> sptr \<Rightarrow> 32 word \<Rightarrow> iptr \<Rightarrow> refkey option \<Rightarrow> bool \<Rightarrow>
   (fz_context \<times> bool) res" where
  "store_admit_index c key val itemsize item rk hash_ok =
     (let c1 = upd_store (\<lambda>st. st\<lparr>store_size := store_size st + itemsize\<rparr>) c in
      rbind (fz_keep_obj c1 key) (\<lambda>c2.
      let c3 = c2\<lparr>items := (items c2)(item \<mapsto>
                 \<lparr>item_key = key, item_val = val, item_size = itemsize,
                  item_next = None, item_prev = None\<rparr>)\<rparr>
      in
      (case rk of
         None \<Rightarrow> Inr (c3, True)
       | Some k \<Rightarrow>
           (let c4 = fz_unlock c3 in
            if hash_ok
            then Inr (upd_store (\<lambda>st. st\<lparr>store_hash :=
                        fz_hash_insert (store_hash st) k item\<rparr>) c4, True)
            else Inr (fz_unlock (upd_store (\<lambda>st. st\<lparr>store_size :=
                        store_size st - itemsize\<rparr>) (fz_lock (fz_free c4 item))), False)))))"

definition store_admit_link ::
  "fz_context \<Rightarrow> sptr \<Rightarrow> iptr \<Rightarrow> refkey option \<Rightarrow> fz_context res" where
  "store_admit_link c val item rk =
     (let c5 = (case rk of None \<Rightarrow> c | Some k \<Rightarrow> fz_lock c) in
      rbind (bump_ref c5 val) (\<lambda>c6.
      rbind (link_head c6 item) (\<lambda>c7.
      Inr (fz_unlock c7))))"

subsection \<open>fz\_find\_item and fz\_remove\_item\<close>

text \<open>The linear search (lines 319--323 and 384--386), from \<open>item\<close> on.\<close>
partial_function (option) find_scan ::
  "fz_context \<Rightarrow> iptr option \<Rightarrow> free_fn \<Rightarrow> fz_obj \<Rightarrow> (iptr option) res option" where
  "find_scan c item fr kob =
     (case item of
        None \<Rightarrow> Some (Inr None)
      | Some i \<Rightarrow>
          (case get_item_val c i of
             Inl e \<Rightarrow> Some (Inl e)
           | Inr (it, v) \<Rightarrow>
               if s_free v = fr
               then (case get_obj c (item_key it) of
                       Inl e \<Rightarrow> Some (Inl e)
                     | Inr ob \<Rightarrow>
                         if fz_objcmp ob kob = 0 then Some (Inr (Some i))
                         else find_scan c (item_next it) fr kob)
               else find_scan c (item_next it) fr kob))"

declare find_scan.simps [code]

text \<open>Lines 327--349: move the item to the front, bump the count, return the value.\<close>
definition find_touch :: "fz_context \<Rightarrow> iptr \<Rightarrow> (fz_context \<times> sptr option) res" where
  "find_touch c i =
     rbind (unlink c i) (\<lambda>c1.
     rbind (link_head c1 i) (\<lambda>c2.
     rbind (get_item c2 i) (\<lambda>it.
     rbind (bump_ref c2 (item_val it)) (\<lambda>c3.
     Inr (fz_unlock c3, Some (item_val it))))))"

text \<open>Lines 287--354.\<close>
definition fz_find_item ::
  "fz_context \<Rightarrow> free_fn \<Rightarrow> kptr option \<Rightarrow> (fz_context \<times> sptr option) res option" where
  "fz_find_item c fr key =
     (case store c of
        None \<Rightarrow> Some (Inr (c, None))
      | Some st \<Rightarrow>
          (case key of
             None \<Rightarrow> Some (Inr (c, None))
           | Some k \<Rightarrow>
               (case get_obj c k of
                  Inl e \<Rightarrow> Some (Inl e)
                | Inr kob \<Rightarrow>
                    (let c1 = fz_lock c in
                     (case (if fz_is_indirect kob
                            then Some (Inr (fz_hash_find (store_hash st)
                                              (fr, fz_to_num kob, fz_to_gen kob)))
                            else find_scan c1 (store_head st) fr kob) of
                        None \<Rightarrow> None
                      | Some (Inl e) \<Rightarrow> Some (Inl e)
                      | Some (Inr None) \<Rightarrow> Some (Inr (fz_unlock c1, None))
                      | Some (Inr (Some i)) \<Rightarrow> Some (find_touch c1 i))))))"

text \<open>Lines 390--403: what is done with the item found.\<close>
definition remove_found :: "fz_context \<Rightarrow> iptr \<Rightarrow> fz_context res" where
  "remove_found c i =
     rbind (get_item c i) (\<lambda>it.
     rbind (unlink c i) (\<lambda>c1.
     rbind (drop_ref c1 (item_val it)) (\<lambda>(c2, drop).
     let c3 = fz_unlock c2;
         c4 = (if drop then call_free c3 (item_val it) else c3)
     in rbind (fz_drop_obj c4 (item_key it)) (\<lambda>c5.
        Inr (fz_free c5 i)))))"

text \<open>Lines 356--407.\<close>
definition fz_remove_item :: "fz_context \<Rightarrow> free_fn \<Rightarrow> kptr \<Rightarrow> fz_context res option" where
  "fz_remove_item c fr key =
     (case get_obj c key of
        Inl e \<Rightarrow> Some (Inl e)
      | Inr kob \<Rightarrow>
          (let c1 = fz_lock c in
           (case the_store c1 of
              Inl e \<Rightarrow> Some (Inl e)
            | Inr st \<Rightarrow>
                (case (if fz_is_indirect kob
                       then (let rk = (fr, fz_to_num kob, fz_to_gen kob);
                                 item = fz_hash_find (store_hash st) rk
                             in Some (Inr (if item \<noteq> None
                                           then upd_store (\<lambda>st. st\<lparr>store_hash :=
                                                  fz_hash_remove (store_hash st) rk\<rparr>) c1
                                           else c1, item)))
                       else (case find_scan c1 (store_head st) fr kob of
                               None \<Rightarrow> None
                             | Some (Inl e) \<Rightarrow> Some (Inl e)
                             | Some (Inr item) \<Rightarrow> Some (Inr (c1, item)))) of
                   None \<Rightarrow> None
                 | Some (Inl e) \<Rightarrow> Some (Inl e)
                 | Some (Inr (c2, None)) \<Rightarrow> Some (Inr (fz_unlock c2))
                 | Some (Inr (c2, Some i)) \<Rightarrow> Some (remove_found c2 i)))))"

subsection \<open>fz\_empty\_store\<close>

text \<open>The loop of lines 419--422.\<close>
partial_function (option) empty_loop :: "fz_context \<Rightarrow> fz_context res option" where
  "empty_loop c =
     (case the_store c of
        Inl e \<Rightarrow> Some (Inl e)
      | Inr st \<Rightarrow>
          (case store_head st of
             None \<Rightarrow> Some (Inr c)
           | Some h \<Rightarrow>
               (case evict c h of
                  Inl e \<Rightarrow> Some (Inl e)
                | Inr c' \<Rightarrow> empty_loop c')))"

declare empty_loop.simps [code]

text \<open>Lines 409--424.\<close>
definition fz_empty_store :: "fz_context \<Rightarrow> fz_context res option" where
  "fz_empty_store c =
     (case store c of
        None \<Rightarrow> Some (Inr c)
      | Some st \<Rightarrow>
          (case empty_loop (fz_lock c) of
             None \<Rightarrow> None
           | Some (Inl e) \<Rightarrow> Some (Inl e)
           | Some (Inr c') \<Rightarrow> Some (Inr (fz_unlock c'))))"

subsection \<open>scavenge and fz\_store\_scavenge\<close>

text \<open>The loop of lines 492--508, from \<open>item\<close> on: the state and \<^verbatim>\<open>count\<close>.\<close>
partial_function (option) scavenge_loop ::
  "fz_context \<Rightarrow> iptr option \<Rightarrow> 32 word \<Rightarrow> 32 word \<Rightarrow> (fz_context \<times> 32 word) res option" where
  "scavenge_loop c item count tofree =
     (case item of
        None \<Rightarrow> Some (Inr (c, count))
      | Some i \<Rightarrow>
          (case get_item_val c i of
             Inl e \<Rightarrow> Some (Inl e)
           | Inr (it, v) \<Rightarrow>
               if s_refs v = 1
               then (case evict c i of
                       Inl e \<Rightarrow> Some (Inl e)
                     | Inr c' \<Rightarrow>
                         if count + item_size it \<ge> tofree
                         then Some (Inr (c', count + item_size it))
                         else (case the_store c' of
                                 Inl e \<Rightarrow> Some (Inl e)
                               | Inr st \<Rightarrow>
                                   scavenge_loop c' (store_tail st) (count + item_size it) tofree))
               else scavenge_loop c (item_prev it) count tofree))"

declare scavenge_loop.simps [code]

text \<open>Lines 484--511: the state and whether anything was evicted (\<^verbatim>\<open>count != 0\<close>).\<close>
definition scavenge :: "fz_context \<Rightarrow> 32 word \<Rightarrow> (fz_context \<times> bool) res option" where
  "scavenge c tofree =
     (case the_store c of
        Inl e \<Rightarrow> Some (Inl e)
      | Inr st \<Rightarrow>
          (case scavenge_loop c (store_tail st) 0 tofree of
             None \<Rightarrow> None
           | Some (Inl e) \<Rightarrow> Some (Inl e)
           | Some (Inr (c', count)) \<Rightarrow> Some (Inr (c', count \<noteq> 0))))"

text \<open>
  Lines 533--539: \<^verbatim>\<open>max\<close>, the size the store may keep in this phase. The \<^verbatim>\<open>int\<close>
  operands \<^verbatim>\<open>16 - *phase\<close> and \<^verbatim>\<open>15 - *phase\<close> are converted to \<^verbatim>\<open>unsigned int\<close>.
\<close>
definition phase_max :: "fz_store \<Rightarrow> int \<Rightarrow> 32 word" where
  "phase_max st phase =
     (if phase \<ge> 16 then 0
      else if store_max st \<noteq> FZ_STORE_UNLIMITED
      then store_max st div 16 * word_of_int (16 - phase)
      else store_size st div word_of_int (16 - phase) * word_of_int (15 - phase))"

text \<open>
  Lines 542--548: \<open>None\<close> for the \<^verbatim>\<open>continue\<close> of line 546, otherwise \<^verbatim>\<open>tofree\<close>.
\<close>
definition phase_tofree :: "fz_store \<Rightarrow> 32 word \<Rightarrow> 32 word \<Rightarrow> 32 word option" where
  "phase_tofree st sz mx =
     (if sz > UINT_MAX - store_size st then Some (UINT_MAX - mx)
      else if sz + store_size st > mx then None
      else Some (sz + store_size st - mx))"

text \<open>
  The \<^verbatim>\<open>do ... while (max > 0)\<close> of lines 529--560: the state, the value returned and
  the final \<^verbatim>\<open>*phase\<close>. A \<^verbatim>\<open>continue\<close> goes to the test of the loop.
\<close>
function scavenge_phases ::
  "fz_context \<Rightarrow> 32 word \<Rightarrow> int \<Rightarrow> (fz_context \<times> int \<times> int) res option" where
  "scavenge_phases c sz phase =
     (case the_store c of
        Inl e \<Rightarrow> Some (Inl e)
      | Inr st \<Rightarrow>
          (let mx = phase_max st phase in
           (case phase_tofree st sz mx of
              None \<Rightarrow>
                if mx > 0 then scavenge_phases c sz (phase + 1)
                else Some (Inr (c, 0, phase + 1))
            | Some tofree \<Rightarrow>
                (case scavenge c tofree of
                   None \<Rightarrow> None
                 | Some (Inl e) \<Rightarrow> Some (Inl e)
                 | Some (Inr (c', freed)) \<Rightarrow>
                     if freed then Some (Inr (c', 1, phase + 1))
                     else if mx > 0 then scavenge_phases c' sz (phase + 1)
                     else Some (Inr (c', 0, phase + 1))))))"
  by pat_completeness auto

termination
  by (relation "measure (\<lambda>(c, sz, phase). nat (16 - phase))")
     (auto simp: phase_max_def split: if_splits)

declare scavenge_phases.simps [simp del]

text \<open>
  Lines 513--568: the state, the value returned and the final \<^verbatim>\<open>*phase\<close>. The context
  itself always exists in the model.
\<close>
definition fz_store_scavenge ::
  "fz_context \<Rightarrow> 32 word \<Rightarrow> int \<Rightarrow> (fz_context \<times> int \<times> int) res option" where
  "fz_store_scavenge c sz phase =
     (case store c of
        None \<Rightarrow> Some (Inr (c, 0, phase))
      | Some st \<Rightarrow> scavenge_phases c sz phase)"

subsection \<open>Sequences of calls\<close>

text \<open>One call after another; a fault or a call that does not return ends the sequence.\<close>
definition then_do :: "'a res option \<Rightarrow> ('a \<Rightarrow> 'b res option) \<Rightarrow> 'b res option" where
  "then_do m f = (case m of None \<Rightarrow> None | Some (Inl e) \<Rightarrow> Some (Inl e) | Some (Inr x) \<Rightarrow> f x)"

text \<open>Calls of \<^verbatim>\<open>fz_keep_storable\<close> and \<^verbatim>\<open>fz_drop_storable\<close> on one storable.\<close>
datatype refop = Keep | Drop

fun apply_refop :: "fz_context \<Rightarrow> sptr \<Rightarrow> refop \<Rightarrow> fz_context res" where
  "apply_refop c s Keep = rbind (fz_keep_storable c (Some s)) (\<lambda>(c', r). Inr c')"
| "apply_refop c s Drop = fz_drop_storable c (Some s)"

fun run_refops :: "fz_context \<Rightarrow> sptr \<Rightarrow> refop list \<Rightarrow> fz_context res" where
  "run_refops c s [] = Inr c"
| "run_refops c s (x # xs) = rbind (apply_refop c s x) (\<lambda>c'. run_refops c' s xs)"

text \<open>The fault a sequence of calls ended with, and the state it was raised in.\<close>
definition fault_of :: "'a res option \<Rightarrow> (fault \<times> fz_context) option" where
  "fault_of r = (case r of Some (Inl e) \<Rightarrow> Some e | _ \<Rightarrow> None)"

subsection \<open>Concrete states\<close>

text \<open>
  A context without a store. Storables: 1 and 3 (destructor 1) and 2 (destructor 2),
  each with one reference, its owner's. Key objects: 1 is the indirect reference
  \<open>7 0 R\<close>, 2 and 3 are two different direct objects.
\<close>
definition heap0 :: fz_context where
  "heap0 =
     \<lparr>store = None, items = Map.empty,
      vals = [1 \<mapsto> \<lparr>s_refs = 1, s_free = 1\<rparr>, 2 \<mapsto> \<lparr>s_refs = 1, s_free = 2\<rparr>,
              3 \<mapsto> \<lparr>s_refs = 1, s_free = 1\<rparr>],
      objs = [1 \<mapsto> \<lparr>o_refs = 1, o_kind = Indirect 7 0\<rparr>,
              2 \<mapsto> \<lparr>o_refs = 1, o_kind = Direct 5\<rparr>,
              3 \<mapsto> \<lparr>o_refs = 1, o_kind = Direct 6\<rparr>],
      locked = False, finalized = []\<rparr>"

text \<open>
  A store of capacity \<open>mx\<close> that holds one entry X of size \<open>sz\<close>: the item at address
  1, with key object 2 and storable 1, whose only reference is the store's.
\<close>
definition store_X :: "32 word \<Rightarrow> 32 word \<Rightarrow> fz_context" where
  "store_X mx sz =
     \<lparr>store = Some \<lparr>store_refs = 1, store_head = Some 1, store_tail = Some 1,
                store_hash = Map.empty, store_max = mx, store_size = sz\<rparr>,
      items = [1 \<mapsto> \<lparr>item_key = 2, item_val = 1, item_size = sz,
                      item_next = None, item_prev = None\<rparr>],
      vals = [1 \<mapsto> \<lparr>s_refs = 1, s_free = 1\<rparr>, 2 \<mapsto> \<lparr>s_refs = 1, s_free = 2\<rparr>,
              3 \<mapsto> \<lparr>s_refs = 1, s_free = 1\<rparr>],
      objs = [1 \<mapsto> \<lparr>o_refs = 1, o_kind = Indirect 7 0\<rparr>,
              2 \<mapsto> \<lparr>o_refs = 2, o_kind = Direct 5\<rparr>,
              3 \<mapsto> \<lparr>o_refs = 1, o_kind = Direct 6\<rparr>],
      locked = False, finalized = []\<rparr>"

text \<open>
  The same store after a second entry W of size 10 was stored (item 3, key object 3,
  storable 3, which its owner still holds): W is the head, X the tail.
\<close>
definition store_WX :: "32 word \<Rightarrow> 32 word \<Rightarrow> fz_context" where
  "store_WX mx sz =
     \<lparr>store = Some \<lparr>store_refs = 1, store_head = Some 3, store_tail = Some 1,
                store_hash = Map.empty, store_max = mx, store_size = sz + 10\<rparr>,
      items = [1 \<mapsto> \<lparr>item_key = 2, item_val = 1, item_size = sz,
                      item_next = None, item_prev = Some 3\<rparr>,
               3 \<mapsto> \<lparr>item_key = 3, item_val = 3, item_size = 10,
                      item_next = Some 1, item_prev = None\<rparr>],
      vals = [1 \<mapsto> \<lparr>s_refs = 1, s_free = 1\<rparr>, 2 \<mapsto> \<lparr>s_refs = 1, s_free = 2\<rparr>,
              3 \<mapsto> \<lparr>s_refs = 2, s_free = 1\<rparr>],
      objs = [1 \<mapsto> \<lparr>o_refs = 1, o_kind = Indirect 7 0\<rparr>,
              2 \<mapsto> \<lparr>o_refs = 2, o_kind = Direct 5\<rparr>,
              3 \<mapsto> \<lparr>o_refs = 2, o_kind = Direct 6\<rparr>],
      locked = False, finalized = []\<rparr>"

text \<open>What the scenarios below observe of a state.\<close>
definition list_ends :: "fz_context \<Rightarrow> (iptr option \<times> iptr option) option" where
  "list_ends c = map_option (\<lambda>st. (store_head st, store_tail st)) (store c)"

definition current_size :: "fz_context \<Rightarrow> 32 word option" where
  "current_size c = map_option store_size (store c)"

definition refs_of :: "fz_context \<Rightarrow> sptr \<Rightarrow> 32 word option" where
  "refs_of c s = map_option s_refs (vals c s)"

definition key_refs_of :: "fz_context \<Rightarrow> kptr \<Rightarrow> 32 word option" where
  "key_refs_of c k = map_option o_refs (objs c k)"

definition indexed :: "fz_context \<Rightarrow> refkey \<Rightarrow> iptr option" where
  "indexed c k = (case store c of None \<Rightarrow> None | Some st \<Rightarrow> store_hash st k)"

text \<open>
  How the two concrete stores come about: a new store of capacity \<open>mx\<close>, X stored
  and released by its owner; then W stored.
\<close>
definition make_store_X :: "32 word \<Rightarrow> 32 word \<Rightarrow> fz_context res option" where
  "make_store_X mx sz =
     then_do (fz_store_item (fz_new_store_context heap0 mx True) 2 1 sz (Some 1) True) (\<lambda>c.
     Some (fz_drop_storable c (Some 1)))"

definition make_store_WX :: "32 word \<Rightarrow> 32 word \<Rightarrow> fz_context res option" where
  "make_store_WX mx sz =
     then_do (make_store_X mx sz) (\<lambda>c. fz_store_item c 3 3 10 (Some 3) True)"

text \<open>
  The scenario of the spec: an unlimited store; value 1 of size 100 stored under
  \<open>7 0 R\<close> (destructor 1), value 2 of size 50 under \<open>7 0 R\<close> (destructor 2); a
  lookup for destructor 1; the removal for destructor 2; a lookup for each. Observed:
  the two index entries and the items' values after the two insertions, and the three
  lookup results.
\<close>
definition scenario_two_products ::
  "((iptr option \<times> iptr option \<times> sptr option \<times> sptr option) \<times>
    sptr option \<times> sptr option \<times> sptr option) res option" where
  "scenario_two_products =
     then_do (fz_store_item (fz_new_store_context heap0 FZ_STORE_UNLIMITED True)
                1 1 100 (Some 1) True) (\<lambda>c1.
     then_do (fz_store_item c1 1 2 50 (Some 2) True) (\<lambda>c2.
     then_do (fz_find_item c2 1 (Some 1)) (\<lambda>(c3, found1).
     then_do (fz_remove_item c3 2 1) (\<lambda>c4.
     then_do (fz_find_item c4 2 (Some 1)) (\<lambda>(c5, found2).
     then_do (fz_find_item c5 1 (Some 1)) (\<lambda>(c6, found3).
     Some (Inr ((indexed c2 (1, 7, 0), indexed c2 (2, 7, 0),
                 map_option item_val (items c2 1), map_option item_val (items c2 2)),
                found1, found2, found3))))))))"

subsection \<open>The invariant of the store\<close>

text \<open>The first item of a list of addresses, or \<open>q\<close>; the last one, or \<open>p\<close>.\<close>
definition first_or :: "iptr list \<Rightarrow> iptr option \<Rightarrow> iptr option" where
  "first_or xs q = (case xs of [] \<Rightarrow> q | x # ys \<Rightarrow> Some x)"

definition last_or :: "iptr option \<Rightarrow> iptr list \<Rightarrow> iptr option" where
  "last_or p xs = (if xs = [] then p else Some (last xs))"

text \<open>
  The items \<open>xs\<close> are linked in the heap \<open>h\<close>, in this order, between \<open>p\<close> and
  \<open>q\<close>: every item is allocated, its \<^verbatim>\<open>prev\<close> is the item before it (\<open>p\<close> for the
  first) and its \<^verbatim>\<open>next\<close> the item after it (\<open>q\<close> for the last).
\<close>
fun dll :: "(iptr \<rightharpoonup> fz_item) \<Rightarrow> iptr option \<Rightarrow> iptr list \<Rightarrow> iptr option \<Rightarrow> bool" where
  "dll h p [] q = True"
| "dll h p (x # xs) q =
     (case h x of
        None \<Rightarrow> False
      | Some it \<Rightarrow> item_prev it = p \<and> item_next it = first_or xs q \<and> dll h (Some x) xs q)"

text \<open>
  \<open>xs\<close> is the list of the store, head first: its items are distinct and linked between
  null and null, \<^verbatim>\<open>store->head\<close> is its first item and \<^verbatim>\<open>store->tail\<close> its last
  (both null when it is empty).
\<close>
definition lru_list :: "fz_context \<Rightarrow> iptr list \<Rightarrow> bool" where
  "lru_list c xs =
     (case store c of
        None \<Rightarrow> False
      | Some st \<Rightarrow>
          distinct xs \<and> dll (items c) None xs None \<and>
          store_head st = first_or xs None \<and> store_tail st = last_or None xs)"




text \<open>The \<^verbatim>\<open>refkey\<close> under which lines 213--218 index an item, if its key is indirect.\<close>
definition refkey_of :: "fz_context \<Rightarrow> fz_item \<Rightarrow> refkey option" where
  "refkey_of c it =
     (case objs c (item_key it) of
        None \<Rightarrow> None
      | Some ob \<Rightarrow>
          (case vals c (item_val it) of
             None \<Rightarrow> None
           | Some v \<Rightarrow>
               if fz_is_indirect ob then Some (s_free v, fz_to_num ob, fz_to_gen ob) else None))"

text \<open>An entry is allocated, and so are its value and its key object.\<close>
definition entry_ok :: "fz_context \<Rightarrow> iptr \<Rightarrow> bool" where
  "entry_ok c i =
     (case items c i of
        None \<Rightarrow> False
      | Some it \<Rightarrow> vals c (item_val it) \<noteq> None \<and> objs c (item_key it) \<noteq> None)"

text \<open>
  The entry \<open>i\<close> is what a lookup for the destructor \<open>fr\<close> and the key object \<open>kob\<close>
  asks for (line 321): its value has this destructor and its key equals \<open>kob\<close>.
\<close>
definition entry_matches :: "fz_context \<Rightarrow> free_fn \<Rightarrow> fz_obj \<Rightarrow> iptr \<Rightarrow> bool" where
  "entry_matches c fr kob i =
     (case items c i of
        None \<Rightarrow> False
      | Some it \<Rightarrow>
          (case vals c (item_val it) of
             None \<Rightarrow> False
           | Some v \<Rightarrow>
               (case objs c (item_key it) of
                  None \<Rightarrow> False
                | Some ob \<Rightarrow> s_free v = fr \<and> fz_objcmp ob kob = 0)))"

text \<open>Every entry of the index is an item of the list, filed under that item's own key.\<close>
definition index_ok :: "fz_context \<Rightarrow> iptr list \<Rightarrow> bool" where
  "index_ok c xs \<longleftrightarrow>
     (\<forall>k i. indexed c k = Some i \<longrightarrow>
        i \<in> set xs \<and> (case items c i of None \<Rightarrow> False | Some it \<Rightarrow> refkey_of c it = Some k))"

text \<open>
  The invariant of a store whose list is \<open>xs\<close>: the list is well formed, the entries
  are allocated, the index is consistent with the list.
\<close>
definition store_inv :: "fz_context \<Rightarrow> iptr list \<Rightarrow> bool" where
  "store_inv c xs \<longleftrightarrow> lru_list c xs \<and> list_all (entry_ok c) xs \<and> index_ok c xs"

text \<open>
  Two states that differ in the links of the list only (\<^verbatim>\<open>next\<close>, \<^verbatim>\<open>prev\<close>,
  \<^verbatim>\<open>head\<close>, \<^verbatim>\<open>tail\<close>).
\<close>
definition same_frame :: "fz_context \<Rightarrow> fz_context \<Rightarrow> bool" where
  "same_frame c c' \<longleftrightarrow>
     vals c' = vals c \<and> objs c' = objs c \<and> locked c' = locked c \<and>
     finalized c' = finalized c \<and>
     map_option (\<lambda>st. (store_refs st, store_hash st, store_max st, store_size st)) (store c') =
     map_option (\<lambda>st. (store_refs st, store_hash st, store_max st, store_size st)) (store c) \<and>
     (\<forall>j. map_option (\<lambda>it. (item_key it, item_val it, item_size it)) (items c' j) =
          map_option (\<lambda>it. (item_key it, item_val it, item_size it)) (items c j))"


definition same_kinds :: "fz_context \<Rightarrow> fz_context \<Rightarrow> bool" where
  "same_kinds c c' \<longleftrightarrow>
     (\<forall>s. map_option s_free (vals c' s) = map_option s_free (vals c s)) \<and>
     (\<forall>k. map_option o_kind (objs c' k) = map_option o_kind (objs c k))"

text \<open>
  The reference count of the storable of an entry, \<^verbatim>\<open>item->val->refs\<close>; an entry
  is evictable when it is 1, the test of lines 149, 168 and 495.
\<close>
definition entry_refs :: "fz_context \<Rightarrow> iptr \<Rightarrow> 32 word option" where
  "entry_refs c i =
     (case items c i of None \<Rightarrow> None | Some it \<Rightarrow> map_option s_refs (vals c (item_val it)))"

definition evictable :: "fz_context \<Rightarrow> iptr \<Rightarrow> bool" where
  "evictable c i \<longleftrightarrow> entry_refs c i = Some 1"

text \<open>
  From the state \<open>c\<close> with list \<open>xs\<close> to the state \<open>c'\<close> with list \<open>zs\<close>, every
  entry that was not evictable is still in the list, with the same count.
\<close>
definition survive :: "fz_context \<Rightarrow> iptr list \<Rightarrow> fz_context \<Rightarrow> iptr list \<Rightarrow> bool" where
  "survive c xs c' zs \<longleftrightarrow>
     (\<forall>j \<in> set xs. \<not> evictable c j \<longrightarrow> j \<in> set zs \<and> entry_refs c' j = entry_refs c j)"


subsection \<open>A lookup during an insertion\<close>


section \<open>Properties\<close>

lemmas step_defs = rbind_def the_store_def get_item_def get_val_def get_obj_def upd_store_def
  set_prev_def set_next_def add_refs_def fz_lock_def fz_unlock_def call_free_def fz_free_def
  fz_keep_obj_def fz_drop_obj_def fz_is_indirect_def fz_to_num_def fz_to_gen_def fz_objcmp_def
  fz_hash_insert_def fz_hash_find_def fz_hash_remove_def unlink_def drop_ref_def evict_def
  get_item_val_def ensure_space_evict_def link_head_def bump_ref_def store_admit_def
  store_admit_index_def store_admit_link_def
  find_touch_def remove_found_def FZ_STORE_UNLIMITED_def UINT_MAX_def then_do_def
  fz_new_store_context_def fz_store_item_def fz_find_item_def fz_remove_item_def
  fz_drop_storable_def fz_keep_storable_def ensure_space_def scavenge_def fz_store_scavenge_def
  list_ends_def current_size_def refs_of_def key_refs_of_def indexed_def fault_of_def Let_def

lemmas loop_simps = ensure_space_check.simps ensure_space_free.simps store_make_room.simps
  find_scan.simps empty_loop.simps scavenge_loop.simps scavenge_phases.simps

subsection \<open>The concrete states are reached through the interface\<close>

lemma store_X_reachable:
  "0 < mx \<Longrightarrow> sz \<le> mx \<Longrightarrow> make_store_X mx sz = Some (Inr (store_X mx sz))"
  by (auto simp add: make_store_X_def store_X_def heap0_def step_defs loop_simps fun_eq_iff)

lemma store_WX_reachable: "make_store_WX 100 60 = Some (Inr (store_WX 100 60))"
  by (auto simp add: make_store_WX_def store_WX_def store_X_reachable store_X_def
      step_defs loop_simps fun_eq_iff)

subsection \<open>Admission under a bounded capacity\<close>

text \<open>
  Claim C1. The claim: in a store of capacity 100 that holds only the size-60 entry X,
  held by nobody else, storing a size-60 entry Y evicts X and admits Y, so that the
  size is 60 afterwards; in general an insertion completes once enough space was freed.
  The code does neither. With X alone in the list, \<^verbatim>\<open>ensure_space\<close> evicts X and then
  decrements the count of X's predecessor, which is null: the call ends in a null
  dereference, with the store empty and Y not admitted. With a second, pinned entry W in
  front of X the eviction succeeds, but the loop of \<^verbatim>\<open>fz_store_item\<close> tests the
  \<^verbatim>\<open>size\<close> it computed before the eviction, calls \<^verbatim>\<open>ensure_space\<close> again, which now
  finds nothing to evict, and abandons Y although it would fit: the store ends with W
  alone and size 10.
\<close>
theorem C1_store_item_never_admits_after_eviction:
  "map_option (\<lambda>(f, c). (f, list_ends c, current_size c, items c 2))
     (fault_of (fz_store_item (store_X 100 60) 1 2 60 (Some 2) True))
   = Some (NullDeref, Some (None, None), Some 0, None)
   \<and>
   then_do (fz_store_item (store_WX 100 60) 1 2 60 (Some 2) True) (\<lambda>c.
     Some (Inr (list_ends c, current_size c, items c 2, indexed c (2, 7, 0), refs_of c 2)))
   = Some (Inr (Some (Some 3, Some 3), Some 10, None, None, Some 1))"
  by (simp add: store_X_def store_WX_def step_defs loop_simps)

subsection \<open>The amount to free in a scavenge phase\<close>

text \<open>
  Claim C2. The claim: in every phase the amount to free is
  \<open>max 0 (requested + current_size - ceiling)\<close>, saturating; a phase whose amount is
  0 is skipped, a phase whose amount is positive sweeps with that amount as target.
  The code has the test of line 545 the wrong way round. A store of capacity 1600 whose
  only entry (size 1600) is evictable, asked for 100 bytes: every phase has a positive
  amount and every phase is skipped; the call returns 0 after phase 16 and the state is
  untouched. The same store asked for 0 bytes: the amount of phase 0 is 0, and the sweep
  runs and evicts the entry.
\<close>
theorem C2_scavenge_skips_when_over_ceiling:
  "fz_store_scavenge (store_X 1600 1600) 100 0 = Some (Inr (store_X 1600 1600, 0, 17))
   \<and>
   then_do (fz_store_scavenge (store_X 1600 1600) 0 0) (\<lambda>(c, r, ph).
     Some (Inr (list_ends c, current_size c, r, ph)))
   = Some (Inr (Some (None, None), Some 0, 1, 1))"
  by (simp add: store_X_def step_defs loop_simps phase_max_def phase_tofree_def)

subsection \<open>The size accounting\<close>

text \<open>
  Claim C3. The claim: the size of the store is the sum of the sizes of the entries in
  the list after any sequence of operations, and a successful \<^verbatim>\<open>fz_remove_item\<close>
  lowers it by the size of the entry removed. \<^verbatim>\<open>fz_remove_item\<close> unlinks and frees
  the item and leaves \<^verbatim>\<open>store->size\<close> alone (\<^verbatim>\<open>evict\<close> subtracts, line 105): after
  the removal of X from the store that holds only X, the list is empty, the item is
  gone, and the size is still 60.
\<close>
theorem C3_remove_item_keeps_size:
  "then_do (fz_remove_item (store_X 100 60) 1 2) (\<lambda>c.
     Some (Inr (list_ends c, items c 1, current_size c)))
   = Some (Inr (Some (None, None), None, Some 60))"
  by (simp add: store_X_def step_defs loop_simps)

subsection \<open>Pinning in ensure\_space\<close>

text \<open>
  Claim C4. The claim: in the second pass the predecessor is pinned only if it exists
  and unpinned after the eviction, and no count is accessed through an absent
  predecessor, also when the evicted entry is the head. The increment of line 180 is
  guarded by \<^verbatim>\<open>if (prev)\<close>, the decrement of line 186 is not: evicting the head of the
  list dereferences a null pointer.
\<close>
theorem C4_ensure_space_unpins_null:
  "map_option fst (fault_of (ensure_space (fz_lock (store_X 100 60)) 1)) = Some NullDeref"
  by (simp add: store_X_def step_defs loop_simps)

subsection \<open>Failure of the index insertion\<close>

text \<open>
  Claim C5. The claim: when the insertion into the index fails, the size is restored,
  the count of the value is unchanged and the reference taken on the key is released.
  The size and the value are as claimed; the key is not released: line 250 keeps the
  key, and the handler of lines 263--270 frees the item without dropping it. Here the
  key object 1 had one reference before the call and has two after it, and no item
  holds it.
\<close>
theorem C5_index_failure_leaks_key:
  "then_do (fz_store_item (fz_new_store_context heap0 FZ_STORE_UNLIMITED True)
              1 2 50 (Some 2) False) (\<lambda>c.
     Some (Inr (current_size c, refs_of c 2, items c 2, indexed c (2, 7, 0), key_refs_of c 1)))
   = Some (Inr (Some 0, Some 1, None, None, Some 2))
   \<and> key_refs_of (fz_new_store_context heap0 FZ_STORE_UNLIMITED True) 1 = Some 1"
  by (simp add: heap0_def step_defs loop_simps)

subsection \<open>The ceiling of a scavenge phase\<close>

lemma unat_div_mult_le:
  fixes a :: "32 word"
  assumes "0 < k" "k \<le> 16" "j \<le> k"
  shows "unat (a div word_of_nat k * word_of_nat j) = unat a div k * j"
proof -
  have a: "unat a < 2 ^ 32" using unsigned_less [of a] by simp
  have "unat a div k * j \<le> unat a div k * k" using assms by simp
  also have "\<dots> \<le> unat a" by simp
  finally have b: "unat a div k * j < 2 ^ 32" using a by simp
  have k: "unat (word_of_nat k :: 32 word) = k"
    using assms by (simp add: unsigned_of_nat take_bit_nat_eq_self)
  have j: "unat (word_of_nat j :: 32 word) = j"
    using assms by (simp add: unsigned_of_nat take_bit_nat_eq_self)
  have "unat (a div word_of_nat k * word_of_nat j)
          = (unat (a div word_of_nat k) * unat (word_of_nat j :: 32 word)) mod 2 ^ 32"
    by (simp add: unat_word_ariths)
  also have "\<dots> = (unat a div k * j) mod 2 ^ 32" by (simp add: k j unat_div)
  also have "\<dots> = unat a div k * j" using b by simp
  finally show ?thesis .
qed

text \<open>
  Claim C6, as stated: the ceiling of phase \<open>p\<close> is \<open>max_capacity * (16 - p) / 16\<close>
  for a bounded store. It is not: the code divides first (lines 537 and 539), so for
  capacity 100 the ceiling of phase 0 is 96, not 100.
\<close>
theorem C6_ceiling_counterexample:
  "int (unat (phase_max \<lparr>store_refs = 1, store_head = None, store_tail = None,
       store_hash = Map.empty, store_max = 100, store_size = 0\<rparr> 0)) \<noteq> 100 * (16 - 0) div 16"
  by (simp add: phase_max_def FZ_STORE_UNLIMITED_def)

text \<open>
  Claim C6, amended: for every phase \<open>p\<close> from 0 to 16 the ceiling is, without
  wrap-around, \<open>(max_capacity div 16) * (16 - p)\<close> when the capacity is bounded and
  \<open>p < 16\<close>, \<open>(current_size div (16 - p)) * (15 - p)\<close> when it is unlimited and
  \<open>p < 16\<close>, and 0 at \<open>p = 16\<close>; the division comes first and truncates.
\<close>
theorem C6_ceiling_divides_first:
  assumes "0 \<le> p" "p \<le> 16"
  shows "int (unat (phase_max st p)) =
     (if p = 16 then 0
      else if store_max st \<noteq> FZ_STORE_UNLIMITED
      then (int (unat (store_max st)) div 16) * (16 - p)
      else (int (unat (store_size st)) div (16 - p)) * (15 - p))"
proof (cases "p = 16")
  case True
  then show ?thesis by (simp add: phase_max_def)
next
  case False
  with assms have p: "0 \<le> p" "p < 16" by auto
  define k where "k = nat (16 - p)"
  define j where "j = nat (15 - p)"
  have kj: "0 < k" "k \<le> 16" "j \<le> k" "int k = 16 - p" "int j = 15 - p"
    using p by (auto simp: k_def j_def)
  have wk: "(word_of_int (16 - p) :: 32 word) = word_of_nat k"
    using kj by (metis of_int_of_nat_eq)
  have wj: "(word_of_int (15 - p) :: 32 word) = word_of_nat j"
    using kj by (metis of_int_of_nat_eq)
  show ?thesis
  proof (cases "store_max st \<noteq> FZ_STORE_UNLIMITED")
    case True
    have "unat (phase_max st p) = unat (store_max st) div 16 * k"
      unfolding phase_max_def wk using True p
      by (simp add: unat_div_mult_le [where k = 16, simplified] kj)
    then show ?thesis using True False kj by (simp add: zdiv_int)
  next
    case unlimited: False
    have "unat (phase_max st p) = unat (store_size st) div k * j"
      unfolding phase_max_def wk wj using unlimited p by (simp add: unat_div_mult_le kj)
    then show ?thesis using unlimited False kj by (simp add: zdiv_int)
  qed
qed

theorem C6_ceiling_divides_first_witness:
  "(0::int) \<le> 3 \<and> (3::int) \<le> 16 \<and>
   int (unat (phase_max \<lparr>store_refs = 1, store_head = None, store_tail = None,
       store_hash = Map.empty, store_max = 100, store_size = 0\<rparr> 3)) = 78"
  using C6_ceiling_divides_first [of 3 "\<lparr>store_refs = 1, store_head = None, store_tail = None,
       store_hash = Map.empty, store_max = 100, store_size = 0\<rparr>"]
  by (simp add: FZ_STORE_UNLIMITED_def)

subsection \<open>Two products of one reference\<close>

text \<open>
  Claim C7. In an unlimited store, after value 1 (size 100) was stored under \<open>7 0 R\<close>
  with destructor 1 and value 2 (size 50) under \<open>7 0 R\<close> with destructor 2, both
  entries are indexed, each under its own triple; the lookup of \<open>(7, 0)\<close> for
  destructor 1 returns value 1; after the removal for destructor 2 the lookup for
  destructor 2 returns nothing and the lookup for destructor 1 still returns value 1.
\<close>
theorem C7_two_products_of_one_reference:
  "scenario_two_products =
     Some (Inr ((Some 1, Some 2, Some 1, Some 2), Some 1, None, Some 1))"
  by (simp add: scenario_two_products_def heap0_def step_defs loop_simps)

subsection \<open>Reference counts of storables\<close>

lemma sint_succ: "sint (r::32 word) < 2147483647 \<Longrightarrow> sint (r + 1) = sint r + 1"
proof -
  assume a: "sint r < 2147483647"
  have "- (2 ^ 31) \<le> sint r" using sint_ge [of r] by simp
  then show ?thesis using a
    by (simp add: sint_word_ariths signed_take_bit_int_eq_self)
qed

lemma sint_succ_wrap: "\<not> sint (r::32 word) < 2147483647 \<Longrightarrow> sint (r + 1) < 0"
proof -
  assume a: "\<not> sint r < 2147483647"
  have "sint r < 2 ^ 31" using sint_lt [of r] by simp
  with a have "sint r = sint (2147483647 :: 32 word)" by simp
  then have "r = 2147483647" by (rule signed_word_eqI)
  then show ?thesis by simp
qed

lemma sint_pred: "0 \<le> sint (r::32 word) \<Longrightarrow> sint (r - 1) = sint r - 1"
proof -
  assume a: "0 \<le> sint r"
  have "sint r < 2 ^ 31" using sint_lt [of r] by simp
  then show ?thesis using a
    by (simp add: sint_word_ariths signed_take_bit_int_eq_self)
qed

lemma word_one_sint: "(r::32 word) = 1 \<longleftrightarrow> sint r = 1"
proof
  assume "sint r = 1"
  then have "sint r = sint (1 :: 32 word)" by simp
  then show "r = 1" by (rule signed_word_eqI)
qed simp

lemma keep_storable_eq:
  "vals c s = Some v \<Longrightarrow>
   fz_keep_storable c (Some s) =
     Inr ((if 0 < sint (s_refs v) then c\<lparr>vals := (vals c)(s \<mapsto> v\<lparr>s_refs := s_refs v + 1\<rparr>)\<rparr> else c)
            \<lparr>locked := False\<rparr>, Some s)"
  by (simp add: fz_keep_storable_def fz_lock_def fz_unlock_def get_val_def add_refs_def rbind_def)

lemma drop_storable_eq:
  "vals c s = Some v \<Longrightarrow>
   fz_drop_storable c (Some s) =
     Inr (if sint (s_refs v) < 0 then c\<lparr>locked := False\<rparr>
          else c\<lparr>vals := (vals c)(s \<mapsto> v\<lparr>s_refs := s_refs v - 1\<rparr>), locked := False,
                 finalized := finalized c @ (if s_refs v = 1 then [(s, False)] else [])\<rparr>)"
  by (simp add: fz_drop_storable_def fz_lock_def fz_unlock_def get_val_def add_refs_def rbind_def
      call_free_def Let_def)

text \<open>
  A sequence of keeps and drops of one storable: it calls the destructor at most once,
  and only when the count was positive at the start and is not at the end; a count that
  is not positive never becomes positive again. Provided no keep of the sequence can
  overflow the count, the destructor is called exactly when the count was positive at
  the start and is not at the end.
\<close>
lemma run_refops_log:
  "vals c s = Some v \<Longrightarrow>
   \<exists>c' v'. run_refops c s ops = Inr c' \<and> vals c' s = Some v' \<and>
     (finalized c' = finalized c \<or>
      finalized c' = finalized c @ [(s, False)] \<and> 0 < sint (s_refs v) \<and> sint (s_refs v') \<le> 0) \<and>
     (sint (s_refs v) \<le> 0 \<longrightarrow> sint (s_refs v') \<le> 0 \<and> finalized c' = finalized c) \<and>
     (sint (s_refs v) < 0 \<longrightarrow> s_refs v' = s_refs v) \<and>
     (0 < sint (s_refs v) \<and> sint (s_refs v) + int (length ops) < 2147483648 \<and>
      sint (s_refs v') \<le> 0 \<longrightarrow> finalized c' = finalized c @ [(s, False)])"
proof (induction ops arbitrary: c v)
  case Nil
  then show ?case by simp
next
  case (Cons x xs)
  show ?case
  proof (cases x)
    case Keep
    show ?thesis
    proof (cases "0 < sint (s_refs v)")
      case True
      define v1 where "v1 = v\<lparr>s_refs := s_refs v + 1\<rparr>"
      define c1 where "c1 = c\<lparr>vals := (vals c)(s \<mapsto> v1), locked := False\<rparr>"
      have k: "fz_keep_storable c (Some s) = Inr (c1, Some s)"
        using True by (simp add: keep_storable_eq [OF Cons.prems] c1_def v1_def)
      have v1: "vals c1 s = Some v1" by (simp add: c1_def)
      have f1: "finalized c1 = finalized c" by (simp add: c1_def)
      have r1: "s_refs v1 = s_refs v + 1" by (simp add: v1_def)
      from Cons.IH [OF v1] obtain c' v' where
        r: "run_refops c1 s xs = Inr c'" "vals c' s = Some v'"
           "finalized c' = finalized c1 \<or>
            finalized c' = finalized c1 @ [(s, False)] \<and> 0 < sint (s_refs v1) \<and>
              sint (s_refs v') \<le> 0"
           "sint (s_refs v1) \<le> 0 \<longrightarrow> sint (s_refs v') \<le> 0 \<and> finalized c' = finalized c1"
           "0 < sint (s_refs v1) \<and> sint (s_refs v1) + int (length xs) < 2147483648 \<and>
            sint (s_refs v') \<le> 0 \<longrightarrow> finalized c' = finalized c1 @ [(s, False)]"
        by blast
      have run: "run_refops c s (x # xs) = Inr c'"
        using Keep r(1) k by (simp add: rbind_def)
      have a: "finalized c' = finalized c \<or>
          finalized c' = finalized c @ [(s, False)] \<and> 0 < sint (s_refs v) \<and>
            sint (s_refs v') \<le> 0"
        using r(3) True f1 by auto
      have d: "finalized c' = finalized c @ [(s, False)]"
        if h: "sint (s_refs v) + int (length (x # xs)) < 2147483648" "sint (s_refs v') \<le> 0"
      proof -
        from h(1) have lt: "sint (s_refs v) < 2147483647" by simp
        have "sint (s_refs v1) = sint (s_refs v) + 1" unfolding r1 using lt by (rule sint_succ)
        with h True r(5) f1 show ?thesis by simp
      qed
      from run r(2) a d True show ?thesis by auto
    next
      case False
      define c1 where "c1 = c\<lparr>locked := False\<rparr>"
      have k: "fz_keep_storable c (Some s) = Inr (c1, Some s)"
        using False by (simp add: keep_storable_eq [OF Cons.prems] c1_def)
      have v1: "vals c1 s = Some v" using Cons.prems by (simp add: c1_def)
      have f1: "finalized c1 = finalized c" by (simp add: c1_def)
      from Cons.IH [OF v1] obtain c' v' where
        r: "run_refops c1 s xs = Inr c'" "vals c' s = Some v'"
           "sint (s_refs v) \<le> 0 \<longrightarrow> sint (s_refs v') \<le> 0 \<and> finalized c' = finalized c1"
           "sint (s_refs v) < 0 \<longrightarrow> s_refs v' = s_refs v"
        by blast
      have run: "run_refops c s (x # xs) = Inr c'"
        using Keep r(1) k by (simp add: rbind_def)
      from run r False f1 show ?thesis by auto
    qed
  next
    case Drop
    show ?thesis
    proof (cases "sint (s_refs v) < 0")
      case True
      define c1 where "c1 = c\<lparr>locked := False\<rparr>"
      have k: "fz_drop_storable c (Some s) = Inr c1"
        using True by (simp add: drop_storable_eq [OF Cons.prems] c1_def)
      have v1: "vals c1 s = Some v" using Cons.prems by (simp add: c1_def)
      have f1: "finalized c1 = finalized c" by (simp add: c1_def)
      from Cons.IH [OF v1] obtain c' v' where
        r: "run_refops c1 s xs = Inr c'" "vals c' s = Some v'"
           "sint (s_refs v) \<le> 0 \<longrightarrow> sint (s_refs v') \<le> 0 \<and> finalized c' = finalized c1"
           "sint (s_refs v) < 0 \<longrightarrow> s_refs v' = s_refs v"
        by blast
      have run: "run_refops c s (x # xs) = Inr c'"
        using Drop r(1) k by (simp add: rbind_def)
      from run r True f1 show ?thesis by auto
    next
      case False
      define v1 where "v1 = v\<lparr>s_refs := s_refs v - 1\<rparr>"
      define c1 where "c1 = c\<lparr>vals := (vals c)(s \<mapsto> v1), locked := False,
          finalized := finalized c @ (if s_refs v = 1 then [(s, False)] else [])\<rparr>"
      have k: "fz_drop_storable c (Some s) = Inr c1"
        using False by (simp add: drop_storable_eq [OF Cons.prems] c1_def v1_def)
      have v1: "vals c1 s = Some v1" by (simp add: c1_def)
      have f1: "finalized c1 = finalized c @ (if s_refs v = 1 then [(s, False)] else [])"
        by (simp add: c1_def)
      have r1: "sint (s_refs v1) = sint (s_refs v) - 1"
        using False by (simp add: v1_def sint_pred)
      from Cons.IH [OF v1] obtain c' v' where
        r: "run_refops c1 s xs = Inr c'" "vals c' s = Some v'"
           "finalized c' = finalized c1 \<or>
            finalized c' = finalized c1 @ [(s, False)] \<and> 0 < sint (s_refs v1) \<and>
              sint (s_refs v') \<le> 0"
           "sint (s_refs v1) \<le> 0 \<longrightarrow> sint (s_refs v') \<le> 0 \<and> finalized c' = finalized c1"
           "0 < sint (s_refs v1) \<and> sint (s_refs v1) + int (length xs) < 2147483648 \<and>
            sint (s_refs v') \<le> 0 \<longrightarrow> finalized c' = finalized c1 @ [(s, False)]"
        by blast
      have run: "run_refops c s (x # xs) = Inr c'"
        using Drop r(1) k by (simp add: rbind_def)
      show ?thesis
      proof (cases "s_refs v = 1")
        case True
        then have "sint (s_refs v1) = 0" using r1 by simp
        with r(4) f1 True have "sint (s_refs v') \<le> 0" "finalized c' = finalized c @ [(s, False)]"
          by simp_all
        with run r(2) True show ?thesis by auto
      next
        case ne: False
        then have ne1: "sint (s_refs v) \<noteq> 1" by (simp add: word_one_sint)
        have f2: "finalized c1 = finalized c" using ne f1 by simp
        show ?thesis
        proof (cases "sint (s_refs v) = 0")
          case True
          with r(4) r1 f2 have "sint (s_refs v') \<le> 0" "finalized c' = finalized c" by simp_all
          with run r(2) True show ?thesis by auto
        next
          case pos: False
          with False ne1 have p: "1 < sint (s_refs v)" by simp
          have a: "finalized c' = finalized c \<or>
              finalized c' = finalized c @ [(s, False)] \<and> 0 < sint (s_refs v) \<and>
                sint (s_refs v') \<le> 0"
            using r(3) p f2 by auto
          have d: "finalized c' = finalized c @ [(s, False)]"
            if h: "sint (s_refs v) + int (length (x # xs)) < 2147483648" "sint (s_refs v') \<le> 0"
            using r(5) h p r1 f2 by simp
          from run r(2) a d p show ?thesis by auto
        qed
      qed
    qed
  qed
qed

text \<open>
  Claim C9. \<^verbatim>\<open>fz_keep_storable\<close> does nothing on null, increments the count only when
  it is positive, and returns its argument. \<^verbatim>\<open>fz_drop_storable\<close> does nothing on null
  and on a negative count; otherwise it decrements the count, and calls the destructor,
  with the lock released, exactly when the count was 1. The count is a 32-bit \<^verbatim>\<open>int\<close>:
  the increment of \<^verbatim>\<open>INT_MAX\<close> gives \<^verbatim>\<open>INT_MIN\<close>. Over any sequence of keeps and
  drops of a storable the destructor is called at most once, always with the lock
  released, and only if the count is positive at the start and not positive at the end;
  a negative count at the start is never changed. When the count at the start plus the
  length of the sequence is at most \<^verbatim>\<open>INT_MAX\<close>, so that no keep of the sequence
  overflows, the destructor is called exactly when the count is positive at the start
  and not positive at the end, that is, when the sequence contains the drop that takes
  the count from 1 to 0.
\<close>
theorem C9_keep_drop_storable:
  assumes "vals c s = Some v"
  shows "fz_keep_storable c None = Inr (c, None) \<and>
     fz_keep_storable c (Some s) =
       Inr ((if 0 < sint (s_refs v) then c\<lparr>vals := (vals c)(s \<mapsto> v\<lparr>s_refs := s_refs v + 1\<rparr>)\<rparr>
             else c)\<lparr>locked := False\<rparr>, Some s) \<and>
     fz_drop_storable c None = Inr c \<and>
     fz_drop_storable c (Some s) =
       Inr (if sint (s_refs v) < 0 then c\<lparr>locked := False\<rparr>
            else c\<lparr>vals := (vals c)(s \<mapsto> v\<lparr>s_refs := s_refs v - 1\<rparr>), locked := False,
                   finalized := finalized c @ (if s_refs v = 1 then [(s, False)] else [])\<rparr>) \<and>
     (\<exists>c' v'. run_refops c s ops = Inr c' \<and> vals c' s = Some v' \<and>
        (finalized c' = finalized c \<or>
         finalized c' = finalized c @ [(s, False)] \<and> 0 < sint (s_refs v) \<and>
           sint (s_refs v') \<le> 0) \<and>
        (sint (s_refs v) < 0 \<longrightarrow> s_refs v' = s_refs v) \<and>
        (sint (s_refs v) + int (length ops) < 2147483648 \<longrightarrow>
           finalized c' =
             finalized c @ (if 0 < sint (s_refs v) \<and> sint (s_refs v') \<le> 0 then [(s, False)]
                            else [])))"
proof -
  have "fz_keep_storable c None = Inr (c, None)" by (simp add: fz_keep_storable_def)
  moreover have "fz_drop_storable c None = Inr c" by (simp add: fz_drop_storable_def)
  moreover from run_refops_log [OF assms, of ops]
  have "\<exists>c' v'. run_refops c s ops = Inr c' \<and> vals c' s = Some v' \<and>
        (finalized c' = finalized c \<or>
         finalized c' = finalized c @ [(s, False)] \<and> 0 < sint (s_refs v) \<and>
           sint (s_refs v') \<le> 0) \<and>
        (sint (s_refs v) < 0 \<longrightarrow> s_refs v' = s_refs v) \<and>
        (sint (s_refs v) + int (length ops) < 2147483648 \<longrightarrow>
           finalized c' =
             finalized c @ (if 0 < sint (s_refs v) \<and> sint (s_refs v') \<le> 0 then [(s, False)]
                            else []))"
    by (elim exE conjE) (rule exI, rule exI, auto)
  ultimately show ?thesis
    using keep_storable_eq [OF assms] drop_storable_eq [OF assms] by simp
qed

theorem C9_keep_drop_storable_witness:
  "vals heap0 1 = Some \<lparr>s_refs = 1, s_free = 1\<rparr> \<and>
   fz_keep_storable heap0 (Some 1) =
     Inr (heap0\<lparr>vals := (vals heap0)(1 \<mapsto> \<lparr>s_refs = 2, s_free = 1\<rparr>), locked := False\<rparr>,
          Some 1) \<and>
   fz_drop_storable heap0 (Some 1) =
     Inr (heap0\<lparr>vals := (vals heap0)(1 \<mapsto> \<lparr>s_refs = 0, s_free = 1\<rparr>), locked := False,
               finalized := [(1, False)]\<rparr>) \<and>
   (\<exists>c' v'. run_refops heap0 1 [Keep, Drop, Drop, Drop, Keep, Drop] = Inr c' \<and>
      vals c' 1 = Some v' \<and> finalized c' = [(1, False)]) \<and>
   (\<exists>c'. run_refops (heap0\<lparr>vals := (vals heap0)(1 \<mapsto> \<lparr>s_refs = - 1, s_free = 1\<rparr>)\<rparr>) 1
            [Drop, Keep, Drop] = Inr c' \<and>
      refs_of c' 1 = Some (- 1) \<and> finalized c' = [])"
proof -
  have h: "vals heap0 1 = Some \<lparr>s_refs = 1, s_free = 1\<rparr>" by (simp add: heap0_def)
  have f: "finalized heap0 = []" by (simp add: heap0_def)
  from C9_keep_drop_storable [OF h, of "[Keep, Drop, Drop, Drop, Keep, Drop]"]
  obtain c' v' where
    k: "fz_keep_storable heap0 (Some 1) =
          Inr (heap0\<lparr>vals := (vals heap0)(1 \<mapsto> \<lparr>s_refs = 2, s_free = 1\<rparr>), locked := False\<rparr>,
               Some 1)"
    and d: "fz_drop_storable heap0 (Some 1) =
          Inr (heap0\<lparr>vals := (vals heap0)(1 \<mapsto> \<lparr>s_refs = 0, s_free = 1\<rparr>), locked := False,
                    finalized := finalized heap0 @ [(1, False)]\<rparr>)"
    and r: "run_refops heap0 1 [Keep, Drop, Drop, Drop, Keep, Drop] = Inr c'"
      "vals c' 1 = Some v'"
      "finalized c' = finalized heap0 @ (if sint (s_refs v') \<le> 0 then [(1, False)] else [])"
    by auto
  have "run_refops heap0 1 [Keep, Drop, Drop, Drop, Keep, Drop] = Inr c' \<Longrightarrow>
        vals c' 1 = Some v' \<Longrightarrow> sint (s_refs v') \<le> 0"
    by (auto simp add: heap0_def step_defs)
  with r have e: "finalized c' = [(1, False)]" by (simp add: f)
  define hs where "hs = heap0\<lparr>vals := (vals heap0)(1 \<mapsto> \<lparr>s_refs = - 1, s_free = 1\<rparr>)\<rparr>"
  have hs: "vals hs 1 = Some \<lparr>s_refs = - 1, s_free = 1\<rparr>" by (simp add: hs_def)
  have fs: "finalized hs = []" by (simp add: hs_def heap0_def)
  from C9_keep_drop_storable [OF hs, of "[Drop, Keep, Drop]"]
  obtain c2 v2 where
    s: "run_refops hs 1 [Drop, Keep, Drop] = Inr c2" "vals c2 1 = Some v2"
      "s_refs v2 = - 1" "finalized c2 = finalized hs"
    by auto
  from s fs have "\<exists>c'. run_refops hs 1 [Drop, Keep, Drop] = Inr c' \<and>
      refs_of c' 1 = Some (- 1) \<and> finalized c' = []"
    by (simp add: refs_of_def)
  with h k d r e f show ?thesis unfolding hs_def by auto
qed

text \<open>
  At \<^verbatim>\<open>INT_MAX\<close> a keep makes the count \<^verbatim>\<open>INT_MIN\<close>; the storable is static from
  then on, and the drops that follow never call its destructor.
\<close>
lemma keep_storable_at_INT_MAX:
  "map_option (\<lambda>c. (map_option (\<lambda>v. sint (s_refs v)) (vals c 1), finalized c))
     (case run_refops (heap0\<lparr>vals := (vals heap0)(1 \<mapsto> \<lparr>s_refs = 2147483647, s_free = 1\<rparr>)\<rparr>) 1
             [Keep, Drop, Drop] of Inl e \<Rightarrow> None | Inr c \<Rightarrow> Some c) =
   Some (Some (- 2147483648), [])"
  by (simp add: heap0_def step_defs)

subsection \<open>Linked lists in the heap\<close>

lemma first_or_simps [simp]: "first_or [] q = q" "first_or (x # xs) q = Some x"
  by (simp_all add: first_or_def)

lemma last_or_simps [simp]: "last_or p [] = p" "last_or p (xs @ [x]) = Some x"
  "last_or p (x # xs) = Some (last (x # xs))"
  by (simp_all add: last_or_def)










subsection \<open>Unlinking and linking\<close>

lemma same_frame_refl [simp]: "same_frame c c"
  by (simp add: same_frame_def)










subsection \<open>What the invariant depends on\<close>

lemma same_kinds_refl [simp]: "same_kinds c c"
  by (simp add: same_kinds_def)












subsection \<open>Eviction keeps the invariant\<close>

lemma fz_lock_fields [simp]:
  "store (fz_lock c) = store c" "items (fz_lock c) = items c" "vals (fz_lock c) = vals c"
  "objs (fz_lock c) = objs c" "finalized (fz_lock c) = finalized c" "locked (fz_lock c)"
  by (simp_all add: fz_lock_def)

lemma fz_unlock_fields [simp]:
  "store (fz_unlock c) = store c" "items (fz_unlock c) = items c" "vals (fz_unlock c) = vals c"
  "objs (fz_unlock c) = objs c" "finalized (fz_unlock c) = finalized c" "\<not> locked (fz_unlock c)"
  by (simp_all add: fz_unlock_def)

lemma call_free_fields [simp]:
  "store (call_free c s) = store c" "items (call_free c s) = items c"
  "vals (call_free c s) = vals c" "objs (call_free c s) = objs c"
  "finalized (call_free c s) = finalized c @ [(s, locked c)]"
  "locked (call_free c s) = locked c"
  by (simp_all add: call_free_def)

lemma fz_free_fields [simp]:
  "store (fz_free c i) = store c" "items (fz_free c i) = (items c)(i := None)"
  "vals (fz_free c i) = vals c" "objs (fz_free c i) = objs c"
  "finalized (fz_free c i) = finalized c" "locked (fz_free c i) = locked c"
  by (simp_all add: fz_free_def)

lemma upd_store_fields [simp]:
  "store (upd_store f c) = map_option f (store c)" "items (upd_store f c) = items c"
  "vals (upd_store f c) = vals c" "objs (upd_store f c) = objs c"
  "finalized (upd_store f c) = finalized c" "locked (upd_store f c) = locked c"
  by (simp_all add: upd_store_def)






subsection \<open>Lookup and removal keep the invariant\<close>













lemma entry_matches_lock [simp]: "entry_matches (fz_lock c) fr kob i = entry_matches c fr kob i"
  by (simp add: entry_matches_def fz_lock_def split: option.splits)





subsection \<open>The two sweeps\<close>

lemma survive_refl [simp]: "survive c xs c xs"
  by (simp add: survive_def)
















subsection \<open>Insertion keeps the invariant\<close>







subsection \<open>The links, item by item\<close>



subsection \<open>The list under insertion, lookup, removal and eviction\<close>

text \<open>
  \<^verbatim>\<open>fz_store_item\<close> from line 248 on is its first part, up to the index insertion
  during which the lock is released, followed by its second part.
\<close>
lemma store_admit_split:
  "store_admit c key val itemsize item rk hash_ok =
     rbind (store_admit_index c key val itemsize item rk hash_ok)
       (\<lambda>(c5, stored). if \<not> stored then Inr c5 else store_admit_link c5 val item rk)"
  by (cases rk)
    (auto simp add: store_admit_def store_admit_index_def store_admit_link_def rbind_def Let_def
      split: sum.splits)

lemma insert_in_two_parts:
  "fz_store_item (store_X FZ_STORE_UNLIMITED 60) 1 2 50 (Some 2) True =
     then_do (Some (store_admit_index (fz_lock (store_X FZ_STORE_UNLIMITED 60))
                      1 2 50 2 (Some (2, 7, 0)) True)) (\<lambda>(c1, stored).
     Some (store_admit_link c1 2 2 (Some (2, 7, 0))))"
  by (simp add: store_X_def step_defs loop_simps)

lemma store_X_inv: "store_inv (store_X mx sz) [1]"
  by (auto simp add: store_inv_def lru_list_def index_ok_def entry_ok_def indexed_def
      store_X_def)




text \<open>A new store has the invariant, for the empty list.\<close>
lemma new_store_inv: "store_inv (fz_new_store_context c mx True) []"
  by (simp add: store_inv_def lru_list_def index_ok_def indexed_def fz_new_store_context_def)




end
